theory Spec2Isabelle
  imports Main
begin

section \<open>Constants of the module\<close>

definition EX_CONFIG_NOT_FOUND :: nat where "EX_CONFIG_NOT_FOUND = 1"
definition EX_CONFIG_PARSE_ERROR :: nat where "EX_CONFIG_PARSE_ERROR = 2"
definition EX_NO_DOMAINS :: nat where "EX_NO_DOMAINS = 3"
definition EX_UPDATE_FAILED :: nat where "EX_UPDATE_FAILED = 4"
definition EX_CONNECTION_ERROR :: nat where "EX_CONNECTION_ERROR = 5"

text \<open>Falling off the end of \<open>main\<close> ends the process with status 0.\<close>

definition EX_OK :: nat where "EX_OK = 0"

definition TIMEOUT :: nat where "TIMEOUT = 5"


section \<open>The address-family-constrained connection\<close>

datatype address_family = AF_UNSPEC | AF_INET | AF_INET6

datatype socket_kind = SOCK_STREAM | SOCK_DGRAM | SOCK_RAW

text \<open>The \<open>.name\<close> of an address family, as the message of line 75 prints it.\<close>

fun family_name :: "address_family \<Rightarrow> string" where
  "family_name AF_UNSPEC = ''AF_UNSPEC''"
| "family_name AF_INET = ''AF_INET''"
| "family_name AF_INET6 = ''AF_INET6''"





text \<open>
  The fields of a \<open>_ForcedAFHTTPSConnection\<close> that \<open>connect\<close> reads. The class
  attribute \<open>_address_family\<close> is \<open>AF_UNSPEC\<close> in the base class, \<open>AF_INET\<close> in
  \<open>_IPv4HTTPSConnection\<close> and \<open>AF_INET6\<close> in \<open>_IPv6HTTPSConnection\<close>.
\<close>

record connection =
  host :: string
  port :: "nat option"
  timeout :: nat
  tunnel_host :: "string option"
  conn_family :: address_family






section \<open>Openers and update attempts\<close>

text \<open>
  An opener is built around one handler, and the handler fixes the connection class:
  the opener is known by the address family of that class.
\<close>

datatype opener = Opener address_family

definition make_opener :: "bool \<Rightarrow> opener" where
  "make_opener ipv6 = Opener (if ipv6 then AF_INET6 else AF_INET)"

datatype result = OK | HTTP_ERROR | CONN_ERROR

record request =
  full_url :: string
  headers :: "(string \<times> string) list"

text \<open>
  What \<open>opener.open\<close> does inside the \<open>try\<close> of lines 131 to 138: the \<open>with\<close> block
  ends with a response status, an \<open>HTTPError\<close> with its code is raised, or another
  \<open>Exception\<close> is raised, here with its text.
\<close>

datatype open_result = Response int | HTTPError int | Exception string

text \<open>
  The surroundings of a run: the package version and the network behind the openers.
  The network has a state of its own (type \<open>'w\<close>), so two requests to the same URL may
  be answered differently.
\<close>

record 'w env =
  version :: string
  opener_open :: "opener \<Rightarrow> request \<Rightarrow> nat \<Rightarrow> 'w \<Rightarrow> open_result \<times> 'w"

text \<open>One call of \<open>_update\<close>: its arguments, what the opener did and what was returned.\<close>

record attempt =
  att_opener :: opener
  att_url :: string
  att_domain :: string
  att_label :: string
  att_reply :: open_result
  att_result :: result

text \<open>
  The state a run threads through: the network, the lines printed on the two streams,
  the log of the calls of \<open>_update\<close>, and the two flags of \<open>main\<close>.
\<close>

record 'w state =
  world :: 'w
  stdout :: "string list"
  stderr :: "string list"
  attempts :: "attempt list"
  any_http_error :: bool
  any_conn_error :: bool

text \<open>\<open>str\<close> of an integer, as an f-string renders the status.\<close>

fun str_nat :: "nat \<Rightarrow> string" where
  "str_nat n =
     (if n < 10 then [''0123456789'' ! n]
      else str_nat (n div 10) @ [''0123456789'' ! (n mod 10)])"

declare str_nat.simps [simp del]

definition str :: "int \<Rightarrow> string" where
  "str i = (if i < 0 then CHR ''-'' # str_nat (nat (- i)) else str_nat (nat i))"

text \<open>The messages of \<open>_update\<close> and of \<open>main\<close>.\<close>

definition msg_conn_error :: "string \<Rightarrow> string \<Rightarrow> string \<Rightarrow> string" where
  "msg_conn_error domain label e = domain @ '' ('' @ label @ ''): connection error: '' @ e"

definition msg_success :: "string \<Rightarrow> string \<Rightarrow> string" where
  "msg_success domain label = ''Updated '' @ domain @ '' ('' @ label @ '') successfully.''"

definition msg_404 :: "string \<Rightarrow> string \<Rightarrow> string" where
  "msg_404 domain label =
     domain @ '' ('' @ label @ ''): update URL is invalid (404). Check your configuration.''"

definition msg_400 :: "string \<Rightarrow> string \<Rightarrow> string" where
  "msg_400 domain label =
     domain @ '' ('' @ label @ ''): server rejected the request (400). You may not have a public ''
       @ label @ '' address.''"

definition msg_unexpected :: "string \<Rightarrow> string \<Rightarrow> int \<Rightarrow> string" where
  "msg_unexpected domain label status =
     domain @ '' ('' @ label @ ''): unexpected HTTP status '' @ str status @ ''.''"

definition msg_no_urls :: "string \<Rightarrow> string" where
  "msg_no_urls domain = ''No update URLs configured for '' @ domain @ '', updates not attempted''"

definition msg_no_domains :: "string \<Rightarrow> string" where
  "msg_no_domains config_path = ''No [[domains]] entries found in '' @ config_path"

definition print_out :: "string \<Rightarrow> 'w state \<Rightarrow> 'w state" where
  "print_out line s = s\<lparr>stdout := stdout s @ [line]\<rparr>"

definition print_err :: "string \<Rightarrow> 'w state \<Rightarrow> 'w state" where
  "print_err line s = s\<lparr>stderr := stderr s @ [line]\<rparr>"

text \<open>Lines 140 to 159: the branches on the status.\<close>

definition classify :: "int \<Rightarrow> string \<Rightarrow> string \<Rightarrow> bool \<Rightarrow> 'w state \<Rightarrow> result \<times> 'w state" where
  "classify status domain label verbose s =
     (if 200 \<le> status \<and> status < 300 then
        (OK, if verbose then print_out (msg_success domain label) s else s)
      else if status = 404 then (HTTP_ERROR, print_err (msg_404 domain label) s)
      else if status = 400 then (HTTP_ERROR, print_err (msg_400 domain label) s)
      else (HTTP_ERROR, print_err (msg_unexpected domain label status) s))"

text \<open>Line 129: the request for a URL, with the \<open>User-Agent\<close> header.\<close>

definition Request :: "'w env \<Rightarrow> string \<Rightarrow> request" where
  "Request env url = \<lparr>full_url = url, headers = [(''User-Agent'', ''ydns-py/'' @ version env)]\<rparr>"

text \<open>
  \<open>_update\<close> (lines 122 to 159). The request is opened once; the call is logged with
  the value it returns.
\<close>

definition update ::
  "'w env \<Rightarrow> opener \<Rightarrow> string \<Rightarrow> string \<Rightarrow> string \<Rightarrow> bool \<Rightarrow> 'w state \<Rightarrow> result \<times> 'w state" where
  "update env opener url domain label verbose s =
     (let req = Request env url
      in case opener_open env opener req TIMEOUT (world s) of (reply, w) \<Rightarrow>
        (case (case reply of
                 Response status \<Rightarrow> classify status domain label verbose (s\<lparr>world := w\<rparr>)
               | HTTPError code \<Rightarrow> classify code domain label verbose (s\<lparr>world := w\<rparr>)
               | Exception e \<Rightarrow>
                   (CONN_ERROR, print_err (msg_conn_error domain label e) (s\<lparr>world := w\<rparr>)))
         of (r, s') \<Rightarrow>
           (r, s'\<lparr>attempts := attempts s' @
                   [\<lparr>att_opener = opener, att_url = url, att_domain = domain,
                     att_label = label, att_reply = reply, att_result = r\<rparr>]\<rparr>)))"

section \<open>The run over the domain entries\<close>

text \<open>
  An entry of the configuration is a dictionary; the run reads the keys \<open>domain\<close>,
  \<open>update_url\<close> and \<open>update_url_v6\<close>, whose values are strings.
\<close>

type_synonym entry = "string \<rightharpoonup> string"

text \<open>Lines 225 to 228 and 233 to 236: the flag a result raises.\<close>

definition note_result :: "result \<Rightarrow> 'w state \<Rightarrow> 'w state" where
  "note_result r s =
     (if r = HTTP_ERROR then s\<lparr>any_http_error := True\<rparr>
      else if r = CONN_ERROR then s\<lparr>any_conn_error := True\<rparr>
      else s)"

text \<open>
  \<open>if update_url:\<close> on the value of \<open>entry.get(...)\<close>: an absent key gives \<open>None\<close>,
  and both \<open>None\<close> and the empty string are falsy.
\<close>

definition truthy :: "string option \<Rightarrow> bool" where
  "truthy v = (case v of None \<Rightarrow> False | Some u \<Rightarrow> u \<noteq> [])"

text \<open>Lines 222 to 228 and 230 to 236: one URL of an entry.\<close>

definition try_url ::
  "'w env \<Rightarrow> opener \<Rightarrow> string option \<Rightarrow> string \<Rightarrow> string \<Rightarrow> bool \<Rightarrow> 'w state \<Rightarrow> 'w state" where
  "try_url env opener v domain label verbose s =
     (case v of
        None \<Rightarrow> s
      | Some u \<Rightarrow>
          if u \<noteq> [] then
            (case update env opener u domain label verbose s of (r, s') \<Rightarrow> note_result r s')
          else s)"

text \<open>\<open>entry.get(key, default)\<close>.\<close>

definition get_default :: "entry \<Rightarrow> string \<Rightarrow> string \<Rightarrow> string" where
  "get_default e key dflt = (case e key of None \<Rightarrow> dflt | Some v \<Rightarrow> v)"

text \<open>The body of the loop of \<open>main\<close> (lines 221 to 242).\<close>

definition loop_body ::
  "'w env \<Rightarrow> opener \<Rightarrow> opener \<Rightarrow> bool \<Rightarrow> entry \<Rightarrow> 'w state \<Rightarrow> 'w state" where
  "loop_body env ipv4_opener ipv6_opener verbose e s =
     (let domain = get_default e ''domain'' ''<undefined>'';
          update_url = e ''update_url'';
          s1 = try_url env ipv4_opener update_url domain ''IPv4'' verbose s;
          update_url_v6 = e ''update_url_v6'';
          s2 = try_url env ipv6_opener update_url_v6 domain ''IPv6'' verbose s1
      in if \<not> truthy update_url \<and> \<not> truthy update_url_v6
         then print_err (msg_no_urls domain) s2 else s2)"

text \<open>\<open>for entry in domains\<close> (line 220).\<close>

fun for_entries ::
  "'w env \<Rightarrow> opener \<Rightarrow> opener \<Rightarrow> bool \<Rightarrow> entry list \<Rightarrow> 'w state \<Rightarrow> 'w state" where
  "for_entries env o4 o6 verbose [] s = s"
| "for_entries env o4 o6 verbose (e # es) s =
     for_entries env o4 o6 verbose es (loop_body env o4 o6 verbose e s)"

definition initial :: "'w \<Rightarrow> 'w state" where
  "initial w =
     \<lparr>world = w, stdout = [], stderr = [], attempts = [],
      any_http_error = False, any_conn_error = False\<rparr>"

text \<open>
  Lines 215 to 247 of \<open>main\<close>: the two openers, the loop over the entries and the
  exit status. The result is the exit status with the final state.
\<close>

definition run :: "'w env \<Rightarrow> entry list \<Rightarrow> bool \<Rightarrow> bool \<Rightarrow> 'w \<Rightarrow> nat \<times> 'w state" where
  "run env domains verbose strict w =
     (let ipv4_opener = make_opener False;
          ipv6_opener = make_opener True;
          s = for_entries env ipv4_opener ipv6_opener verbose domains (initial w)
      in if any_conn_error s then (EX_CONNECTION_ERROR, s)
         else if strict \<and> any_http_error s then (EX_UPDATE_FAILED, s)
         else (EX_OK, s))"

text \<open>
  \<open>main\<close> from line 207 on. The parsed arguments (\<open>verbose\<close>, \<open>strict\<close>), the path of
  the configuration file and the value of \<open>config.get("domains", [])\<close> are its inputs;
  finding and reading the file (lines 163 to 205) happen before.
\<close>

definition main ::
  "'w env \<Rightarrow> string \<Rightarrow> entry list \<Rightarrow> bool \<Rightarrow> bool \<Rightarrow> 'w \<Rightarrow> nat \<times> 'w state" where
  "main env config_path domains verbose strict w =
     (if domains = [] then
        (EX_NO_DOMAINS, print_err (msg_no_domains config_path) (initial w))
      else run env domains verbose strict w)"

section \<open>Vocabulary of the properties\<close>

text \<open>The URL of a field that is attempted: none for an absent or empty field.\<close>

definition present :: "string option \<Rightarrow> string list" where
  "present v = (case v of None \<Rightarrow> [] | Some u \<Rightarrow> if u = [] then [] else [u])"

text \<open>
  The calls of \<open>_update\<close> an entry asks for, read off the entry alone: opener, URL,
  domain and label, the IPv4 URL before the IPv6 URL.
\<close>

definition planned :: "opener \<Rightarrow> opener \<Rightarrow> entry \<Rightarrow> (opener \<times> string \<times> string \<times> string) list" where
  "planned o4 o6 e =
     map (\<lambda>u. (o4, u, get_default e ''domain'' ''<undefined>'', ''IPv4'')) (present (e ''update_url'')) @
     map (\<lambda>u. (o6, u, get_default e ''domain'' ''<undefined>'', ''IPv6'')) (present (e ''update_url_v6''))"

text \<open>The arguments of a logged call of \<open>_update\<close>.\<close>

definition call_of :: "attempt \<Rightarrow> opener \<times> string \<times> string \<times> string" where
  "call_of a = (att_opener a, att_url a, att_domain a, att_label a)"

text \<open>The condition of line 238.\<close>

definition no_urls :: "entry \<Rightarrow> bool" where
  "no_urls e = (\<not> truthy (e ''update_url'') \<and> \<not> truthy (e ''update_url_v6''))"




text \<open>Each flag of \<open>main\<close> is set exactly when some logged attempt had that result.\<close>

definition flags_agree :: "'w state \<Rightarrow> bool" where
  "flags_agree s =
     ((any_conn_error s \<longleftrightarrow> CONN_ERROR \<in> set (map att_result (attempts s))) \<and>
      (any_http_error s \<longleftrightarrow> HTTP_ERROR \<in> set (map att_result (attempts s))))"

text \<open>The success lines of the attempts that ended \<open>OK\<close>, printed only when verbose.\<close>

definition confirmations :: "bool \<Rightarrow> attempt list \<Rightarrow> string list" where
  "confirmations verbose as =
     (if verbose then map (\<lambda>a. msg_success (att_domain a) (att_label a))
                        (filter (\<lambda>a. att_result a = OK) as)
      else [])"

text \<open>
  The error stream has one line for each attempt that did not end \<open>OK\<close>, and \<open>n\<close>
  lines more.
\<close>

definition err_count :: "nat \<Rightarrow> 'w state \<Rightarrow> bool" where
  "err_count n s =
     (length (stderr s) = length (filter (\<lambda>a. att_result a \<noteq> OK) (attempts s)) + n)"

text \<open>
  The line of a failed attempt is among the given lines: the connection error with
  the text of the exception, or the line for the status the opener yielded.
\<close>

definition reported :: "string list \<Rightarrow> attempt \<Rightarrow> bool" where
  "reported lines a =
     (case att_result a of
        OK \<Rightarrow> True
      | CONN_ERROR \<Rightarrow>
          (case att_reply a of
             Exception e \<Rightarrow> msg_conn_error (att_domain a) (att_label a) e \<in> set lines
           | _ \<Rightarrow> False)
      | HTTP_ERROR \<Rightarrow>
          (case att_reply a of
             Exception e \<Rightarrow> False
           | Response status \<Rightarrow>
               (if status = 404 then msg_404 (att_domain a) (att_label a)
                else if status = 400 then msg_400 (att_domain a) (att_label a)
                else msg_unexpected (att_domain a) (att_label a) status) \<in> set lines
           | HTTPError status \<Rightarrow>
               (if status = 404 then msg_404 (att_domain a) (att_label a)
                else if status = 400 then msg_400 (att_domain a) (att_label a)
                else msg_unexpected (att_domain a) (att_label a) status) \<in> set lines))"


section \<open>Sample inputs\<close>

text \<open>
  A network that answers the requests of a run from a script, one reply per request,
  and times out when the script is used up.
\<close>

definition scripted :: "open_result list env" where
  "scripted =
     \<lparr>version = ''0.1.0'',
      opener_open = (\<lambda>opener req t w.
        case w of [] \<Rightarrow> (Exception ''timed out'', []) | r # rs \<Rightarrow> (r, rs))\<rparr>"

text \<open>
  Entries: with both URLs, with the IPv4 URL only, with no URL, with an empty URL, and
  without a domain.
\<close>

definition entry_both :: entry where
  "entry_both =
     [''domain'' \<mapsto> ''example.ydns.eu'',
      ''update_url'' \<mapsto> ''https://ydns.io/hosts/update/a'',
      ''update_url_v6'' \<mapsto> ''https://ydns.io/hosts/update/b'']"

definition entry_v4 :: entry where
  "entry_v4 =
     [''domain'' \<mapsto> ''example2.ydns.eu'',
      ''update_url'' \<mapsto> ''https://ydns.io/hosts/update/c'']"

definition entry_bare :: entry where
  "entry_bare = [''domain'' \<mapsto> ''bare.ydns.eu'']"

definition entry_blank :: entry where
  "entry_blank = [''domain'' \<mapsto> ''blank.ydns.eu'', ''update_url'' \<mapsto> []]"

definition entry_nameless :: entry where
  "entry_nameless = [''update_url'' \<mapsto> ''https://ydns.io/hosts/update/d'']"





section \<open>Lemmas about one update attempt and about the loop\<close>





lemma update_status:
  assumes "fst (opener_open env opener (Request env url) TIMEOUT (world s)) \<in> {Response status, HTTPError status}"
  shows "update env opener url domain label verbose s =
     (case classify status domain label verbose
             (s\<lparr>world := snd (opener_open env opener (Request env url) TIMEOUT (world s))\<rparr>) of
        (r, s') \<Rightarrow>
           (r, s'\<lparr>attempts := attempts s' @
                   [\<lparr>att_opener = opener, att_url = url, att_domain = domain, att_label = label,
                     att_reply = fst (opener_open env opener (Request env url) TIMEOUT (world s)),
                     att_result = r\<rparr>]\<rparr>))"
proof (cases "opener_open env opener (Request env url) TIMEOUT (world s)")
  case (Pair reply w)
  with assms have "reply = Response status \<or> reply = HTTPError status" by simp
  with Pair show ?thesis by (auto simp add: update_def)
qed

lemma update_exception:
  assumes "fst (opener_open env opener (Request env url) TIMEOUT (world s)) = Exception e"
  shows "update env opener url domain label verbose s =
     (CONN_ERROR,
      s\<lparr>world := snd (opener_open env opener (Request env url) TIMEOUT (world s)),
        stderr := stderr s @ [msg_conn_error domain label e],
        attempts := attempts s @
                   [\<lparr>att_opener = opener, att_url = url, att_domain = domain, att_label = label,
                     att_reply = Exception e, att_result = CONN_ERROR\<rparr>]\<rparr>)"
proof (cases "opener_open env opener (Request env url) TIMEOUT (world s)")
  case (Pair reply w)
  with assms show ?thesis by (simp add: update_def print_err_def)
qed

lemma classify_eq:
  "classify status domain label verbose s =
     (if 200 \<le> status \<and> status < 300
      then (OK, s\<lparr>stdout := stdout s @ (if verbose then [msg_success domain label] else [])\<rparr>)
      else (HTTP_ERROR,
            s\<lparr>stderr := stderr s @
                 [if status = 404 then msg_404 domain label
                  else if status = 400 then msg_400 domain label
                  else msg_unexpected domain label status]\<rparr>))"
  by (simp add: classify_def print_out_def print_err_def)

text \<open>The three ways a call of update can end.\<close>

lemma update_cases [consumes 1, case_names ok rejected failed]:
  assumes "update env opener url domain label verbose s = (r, s')"
  obtains
    (ok) w reply where "r = OK"
      "s' = s\<lparr>world := w,
               stdout := stdout s @ (if verbose then [msg_success domain label] else []),
               attempts := attempts s @
                 [\<lparr>att_opener = opener, att_url = url, att_domain = domain, att_label = label,
                   att_reply = reply, att_result = OK\<rparr>]\<rparr>"
  | (rejected) w reply status where "r = HTTP_ERROR"
      "reply = Response status \<or> reply = HTTPError status"
      "s' = s\<lparr>world := w,
               stderr := stderr s @
                 [if status = 404 then msg_404 domain label
                  else if status = 400 then msg_400 domain label
                  else msg_unexpected domain label status],
               attempts := attempts s @
                 [\<lparr>att_opener = opener, att_url = url, att_domain = domain, att_label = label,
                   att_reply = reply, att_result = HTTP_ERROR\<rparr>]\<rparr>"
  | (failed) w e where "r = CONN_ERROR"
      "s' = s\<lparr>world := w,
               stderr := stderr s @ [msg_conn_error domain label e],
               attempts := attempts s @
                 [\<lparr>att_opener = opener, att_url = url, att_domain = domain, att_label = label,
                   att_reply = Exception e, att_result = CONN_ERROR\<rparr>]\<rparr>"
proof (cases "fst (opener_open env opener (Request env url) TIMEOUT (world s))")
  case (Exception e)
  from assms update_exception [OF this] show ?thesis
    by (intro failed) auto
next
  case (Response status)
  then have m: "fst (opener_open env opener (Request env url) TIMEOUT (world s))
                  \<in> {Response status, HTTPError status}" by simp
  show ?thesis
  proof (cases "200 \<le> status \<and> status < 300")
    case True
    with assms show ?thesis unfolding update_status [OF m]
      by (intro ok) (auto simp add: classify_eq)
  next
    case False
    with assms Response show ?thesis unfolding update_status [OF m]
      by (intro rejected [where status = status and reply = "Response status"])
         (auto simp add: classify_eq)
  qed
next
  case (HTTPError status)
  then have m: "fst (opener_open env opener (Request env url) TIMEOUT (world s))
                  \<in> {Response status, HTTPError status}" by simp
  show ?thesis
  proof (cases "200 \<le> status \<and> status < 300")
    case True
    with assms show ?thesis unfolding update_status [OF m]
      by (intro ok) (auto simp add: classify_eq)
  next
    case False
    with assms HTTPError show ?thesis unfolding update_status [OF m]
      by (intro rejected [where status = status and reply = "HTTPError status"])
         (auto simp add: classify_eq)
  qed
qed


lemma note_result_fields [simp]:
  "world (note_result r s) = world s"
  "stdout (note_result r s) = stdout s"
  "stderr (note_result r s) = stderr s"
  "attempts (note_result r s) = attempts s"
  "any_http_error (note_result r s) = (any_http_error s \<or> r = HTTP_ERROR)"
  "any_conn_error (note_result r s) = (any_conn_error s \<or> r = CONN_ERROR)"
  by (cases r; simp add: note_result_def)+

lemma print_err_fields [simp]:
  "world (print_err line s) = world s"
  "stdout (print_err line s) = stdout s"
  "stderr (print_err line s) = stderr s @ [line]"
  "attempts (print_err line s) = attempts s"
  "any_http_error (print_err line s) = any_http_error s"
  "any_conn_error (print_err line s) = any_conn_error s"
  by (simp_all add: print_err_def)

lemma try_url_skip: "\<not> truthy v \<Longrightarrow> try_url env opener v domain label verbose s = s"
  by (auto simp add: try_url_def truthy_def split: option.splits)

text \<open>What one URL of an entry does to the state.\<close>

lemma try_url_cases [case_names skip attempted]:
  obtains
    (skip) "\<not> truthy v" "try_url env opener v domain label verbose s = s"
  | (attempted) u a errs where "v = Some u" "u \<noteq> []"
      "att_opener a = opener" "att_url a = u" "att_domain a = domain" "att_label a = label"
      "attempts (try_url env opener v domain label verbose s) = attempts s @ [a]"
      "stdout (try_url env opener v domain label verbose s) =
         stdout s @ (if att_result a = OK \<and> verbose then [msg_success domain label] else [])"
      "stderr (try_url env opener v domain label verbose s) = stderr s @ errs"
      "att_result a = OK \<Longrightarrow> errs = []"
      "att_result a = CONN_ERROR \<Longrightarrow>
         \<exists>e. att_reply a = Exception e \<and> errs = [msg_conn_error domain label e]"
      "att_result a = HTTP_ERROR \<Longrightarrow>
         \<exists>status. (att_reply a = Response status \<or> att_reply a = HTTPError status) \<and>
           errs = [if status = 404 then msg_404 domain label
                   else if status = 400 then msg_400 domain label
                   else msg_unexpected domain label status]"
      "any_conn_error (try_url env opener v domain label verbose s) =
         (any_conn_error s \<or> att_result a = CONN_ERROR)"
      "any_http_error (try_url env opener v domain label verbose s) =
         (any_http_error s \<or> att_result a = HTTP_ERROR)"
proof (cases "truthy v")
  case False
  then show ?thesis using try_url_skip [OF False] by (rule skip)
next
  case True
  then obtain u where v: "v = Some u" "u \<noteq> []"
    by (auto simp add: truthy_def split: option.splits)
  obtain r s' where upd: "update env opener u domain label verbose s = (r, s')"
    by (cases "update env opener u domain label verbose s")
  have t: "try_url env opener v domain label verbose s = note_result r s'"
    using v upd by (simp add: try_url_def)
  from upd show ?thesis
  proof (cases rule: update_cases)
    case (ok w reply)
    show ?thesis
      by (rule attempted [OF v, where a = "\<lparr>att_opener = opener, att_url = u, att_domain = domain,
            att_label = label, att_reply = reply, att_result = OK\<rparr>" and errs = "[]"])
         (simp_all add: t ok)
  next
    case (rejected w reply status)
    show ?thesis
      by (rule attempted [OF v, where a = "\<lparr>att_opener = opener, att_url = u, att_domain = domain,
            att_label = label, att_reply = reply, att_result = HTTP_ERROR\<rparr>"
            and errs = "[if status = 404 then msg_404 domain label
                   else if status = 400 then msg_400 domain label
                   else msg_unexpected domain label status]"])
         (use rejected in \<open>auto simp add: t\<close>)
  next
    case (failed w e)
    show ?thesis
      by (rule attempted [OF v, where a = "\<lparr>att_opener = opener, att_url = u, att_domain = domain,
            att_label = label, att_reply = Exception e, att_result = CONN_ERROR\<rparr>"
            and errs = "[msg_conn_error domain label e]"])
         (simp_all add: t failed)
  qed
qed


subsection \<open>The flags follow the results\<close>



lemma flags_agree_print_err [simp]: "flags_agree (print_err line s) = flags_agree s"
  by (simp add: flags_agree_def)



subsection \<open>The calls made\<close>

lemma calls_try_url:
  "map call_of (attempts (try_url env opener v domain label verbose s)) =
     map call_of (attempts s) @ map (\<lambda>u. (opener, u, domain, label)) (present v)"
  by (cases rule: try_url_cases [of v env opener domain label verbose s])
     (auto simp add: present_def truthy_def call_of_def split: option.splits)

lemma calls_loop_body:
  "map call_of (attempts (loop_body env o4 o6 verbose e s)) =
     map call_of (attempts s) @ planned o4 o6 e"
  by (simp add: loop_body_def Let_def calls_try_url planned_def)


subsection \<open>The standard output\<close>

lemma stdout_try_url:
  "stdout s = confirmations verbose (attempts s) \<Longrightarrow>
   stdout (try_url env opener v domain label verbose s) =
     confirmations verbose (attempts (try_url env opener v domain label verbose s))"
  by (cases rule: try_url_cases [of v env opener domain label verbose s])
     (auto simp add: confirmations_def)

lemma stdout_loop_body:
  "stdout s = confirmations verbose (attempts s) \<Longrightarrow>
   stdout (loop_body env o4 o6 verbose e s) =
     confirmations verbose (attempts (loop_body env o4 o6 verbose e s))"
  by (simp add: loop_body_def Let_def stdout_try_url)

lemma stdout_for_entries:
  "stdout s = confirmations verbose (attempts s) \<Longrightarrow>
   stdout (for_entries env o4 o6 verbose es s) =
     confirmations verbose (attempts (for_entries env o4 o6 verbose es s))"
  by (induction es arbitrary: s) (simp_all add: stdout_loop_body)

subsection \<open>The error stream\<close>

lemma err_count_try_url:
  "err_count n s \<Longrightarrow> err_count n (try_url env opener v domain label verbose s)"
proof (cases rule: try_url_cases [of v env opener domain label verbose s])
  case skip
  assume "err_count n s"
  with skip show ?thesis by simp
next
  case (attempted u a errs)
  assume "err_count n s"
  with attempted show ?thesis
    by (cases "att_result a") (auto simp add: err_count_def)
qed

lemma err_count_loop_body:
  "err_count n s \<Longrightarrow>
   err_count (n + (if no_urls e then 1 else 0)) (loop_body env o4 o6 verbose e s)"
proof -
  assume "err_count n s"
  then have "err_count n
     (try_url env o6 (e ''update_url_v6'') (get_default e ''domain'' ''<undefined>'') ''IPv6'' verbose
       (try_url env o4 (e ''update_url'') (get_default e ''domain'' ''<undefined>'') ''IPv4'' verbose s))"
    by (intro err_count_try_url)
  then show ?thesis
    by (simp add: loop_body_def Let_def no_urls_def err_count_def)
qed

lemma err_count_for_entries:
  "err_count n s \<Longrightarrow>
   err_count (n + length (filter no_urls es)) (for_entries env o4 o6 verbose es s)"
proof (induction es arbitrary: s n)
  case Nil
  then show ?case by simp
next
  case (Cons e es)
  have "err_count (n + (if no_urls e then 1 else 0)) (loop_body env o4 o6 verbose e s)"
    using Cons.prems by (rule err_count_loop_body)
  from Cons.IH [OF this] show ?case by (cases "no_urls e") (simp_all add: add.assoc)
qed


lemma reported_mono: "set xs \<subseteq> set ys \<Longrightarrow> reported xs a \<Longrightarrow> reported ys a"
  by (auto simp add: reported_def split: result.splits open_result.splits if_splits)

lemma stderr_grows_try_url:
  "set (stderr s) \<subseteq> set (stderr (try_url env opener v domain label verbose s))"
  by (cases rule: try_url_cases [of v env opener domain label verbose s]) auto

lemma stderr_grows_loop_body:
  "set (stderr s) \<subseteq> set (stderr (loop_body env o4 o6 verbose e s))"
proof -
  let ?d = "get_default e ''domain'' ''<undefined>''"
  let ?s1 = "try_url env o4 (e ''update_url'') ?d ''IPv4'' verbose s"
  let ?s2 = "try_url env o6 (e ''update_url_v6'') ?d ''IPv6'' verbose ?s1"
  have "set (stderr s) \<subseteq> set (stderr ?s1)" by (rule stderr_grows_try_url)
  also have "\<dots> \<subseteq> set (stderr ?s2)" by (rule stderr_grows_try_url)
  finally show ?thesis by (auto simp add: loop_body_def Let_def)
qed

lemma stderr_grows_for_entries:
  "set (stderr s) \<subseteq> set (stderr (for_entries env o4 o6 verbose es s))"
proof (induction es arbitrary: s)
  case Nil
  show ?case by simp
next
  case (Cons e es)
  have "set (stderr s) \<subseteq> set (stderr (loop_body env o4 o6 verbose e s))"
    by (rule stderr_grows_loop_body)
  also have "\<dots> \<subseteq> set (stderr (for_entries env o4 o6 verbose es (loop_body env o4 o6 verbose e s)))"
    by (rule Cons.IH)
  finally show ?case by simp
qed

lemma reported_try_url:
  assumes "list_all (reported (stderr s)) (attempts s)"
  shows "list_all (reported (stderr (try_url env opener v domain label verbose s)))
           (attempts (try_url env opener v domain label verbose s))"
proof (cases rule: try_url_cases [of v env opener domain label verbose s])
  case skip
  with assms show ?thesis by simp
next
  case (attempted u a errs)
  have old: "list_all (reported (stderr s @ errs)) (attempts s)"
    using assms by (auto simp add: list_all_iff intro: reported_mono [of "stderr s"])
  have new: "reported (stderr s @ errs) a"
  proof (cases "att_result a")
    case OK
    then show ?thesis by (simp add: reported_def)
  next
    case HTTP_ERROR
    with attempted(12) obtain status where
      "att_reply a = Response status \<or> att_reply a = HTTPError status"
      "errs = [if status = 404 then msg_404 domain label
               else if status = 400 then msg_400 domain label
               else msg_unexpected domain label status]" by blast
    with HTTP_ERROR attempted(5,6) show ?thesis by (auto simp add: reported_def)
  next
    case CONN_ERROR
    with attempted(11) obtain e where "att_reply a = Exception e"
      "errs = [msg_conn_error domain label e]" by blast
    with CONN_ERROR attempted(5,6) show ?thesis by (simp add: reported_def)
  qed
  from old new attempted(7,9) show ?thesis by simp
qed

lemma reported_print_err:
  "list_all (reported (stderr s)) (attempts s) \<Longrightarrow>
   list_all (reported (stderr (print_err line s))) (attempts (print_err line s))"
  by (auto simp add: list_all_iff intro: reported_mono [of "stderr s"])

lemma reported_loop_body:
  assumes "list_all (reported (stderr s)) (attempts s)"
  shows "list_all (reported (stderr (loop_body env o4 o6 verbose e s)))
           (attempts (loop_body env o4 o6 verbose e s))"
proof -
  let ?d = "get_default e ''domain'' ''<undefined>''"
  let ?s1 = "try_url env o4 (e ''update_url'') ?d ''IPv4'' verbose s"
  let ?s2 = "try_url env o6 (e ''update_url_v6'') ?d ''IPv6'' verbose ?s1"
  have "list_all (reported (stderr ?s1)) (attempts ?s1)"
    using assms by (rule reported_try_url)
  then have s2: "list_all (reported (stderr ?s2)) (attempts ?s2)"
    by (rule reported_try_url)
  show ?thesis
  proof (cases "no_urls e")
    case True
    then have "loop_body env o4 o6 verbose e s = print_err (msg_no_urls ?d) ?s2"
      by (simp add: loop_body_def Let_def no_urls_def)
    with reported_print_err [OF s2] show ?thesis by simp
  next
    case False
    then have "loop_body env o4 o6 verbose e s = ?s2"
      by (auto simp add: loop_body_def Let_def no_urls_def)
    with s2 show ?thesis by simp
  qed
qed

lemma reported_for_entries:
  "list_all (reported (stderr s)) (attempts s) \<Longrightarrow>
   list_all (reported (stderr (for_entries env o4 o6 verbose es s)))
     (attempts (for_entries env o4 o6 verbose es s))"
  by (induction es arbitrary: s) (simp_all add: reported_loop_body)

lemma warned_loop_body:
  "no_urls e \<Longrightarrow>
   msg_no_urls (get_default e ''domain'' ''<undefined>'')
     \<in> set (stderr (loop_body env o4 o6 verbose e s))"
  by (simp add: loop_body_def Let_def no_urls_def)

lemma warned_for_entries:
  "e \<in> set es \<Longrightarrow> no_urls e \<Longrightarrow>
   msg_no_urls (get_default e ''domain'' ''<undefined>'')
     \<in> set (stderr (for_entries env o4 o6 verbose es s))"
proof (induction es arbitrary: s)
  case Nil
  then show ?case by simp
next
  case (Cons x es)
  show ?case
  proof (cases "e = x")
    case True
    with Cons.prems(2) have "msg_no_urls (get_default e ''domain'' ''<undefined>'')
        \<in> set (stderr (loop_body env o4 o6 verbose x s))"
      by (simp add: warned_loop_body)
    then show ?thesis
      using stderr_grows_for_entries [of "loop_body env o4 o6 verbose x s" env o4 o6 verbose es]
      by auto
  next
    case False
    with Cons.prems have "e \<in> set es" by simp
    from Cons.IH [OF this Cons.prems(2)] show ?thesis by simp
  qed
qed


subsection \<open>Absent and empty URL fields\<close>

lemma truthy_blank [simp]: "truthy None = False" "truthy (Some []) = False"
  by (simp_all add: truthy_def)

lemma try_url_blank [simp]:
  "try_url env opener None domain label verbose s = s"
  "try_url env opener (Some []) domain label verbose s = s"
  by (simp_all add: try_url_def)


subsection \<open>The operations of connect\<close>








section \<open>The properties\<close>

lemmas run_eval =
  run_def for_entries.simps loop_body_def Let_def try_url_def update_def Request_def
  classify_def print_err_def print_out_def note_result_def initial_def make_opener_def
  get_default_def truthy_def scripted_def TIMEOUT_def
  EX_OK_def EX_UPDATE_FAILED_def EX_CONNECTION_ERROR_def
  msg_conn_error_def msg_success_def msg_404_def msg_400_def msg_unexpected_def msg_no_urls_def
  entry_both_def entry_v4_def entry_bare_def entry_blank_def entry_nameless_def


lemma run_state:
  "snd (run env domains verbose strict w) =
     for_entries env (make_opener False) (make_opener True) verbose domains (initial w)"
  by (simp add: run_def Let_def)



text \<open>
  C3: when the opener yields an HTTP status (as a response or as an \<open>HTTPError\<close>),
  a status in [200, 300) gives \<open>OK\<close>, with the success line on the standard output
  only when verbose; 404 gives \<open>HTTP_ERROR\<close> with the "update URL is invalid (404)"
  line; 400 gives \<open>HTTP_ERROR\<close> with the "may not have a public address" line; every
  other status gives \<open>HTTP_ERROR\<close> with the "unexpected HTTP status" line.
\<close>

theorem update_classifies_status:
  assumes "fst (opener_open env opener (Request env url) TIMEOUT (world s))
             \<in> {Response status, HTTPError status}"
  shows "fst (update env opener url domain label verbose s) =
           (if 200 \<le> status \<and> status < 300 then OK else HTTP_ERROR)
       \<and> stdout (snd (update env opener url domain label verbose s)) =
           stdout s @
           (if 200 \<le> status \<and> status < 300 \<and> verbose
            then [''Updated '' @ domain @ '' ('' @ label @ '') successfully.''] else [])
       \<and> stderr (snd (update env opener url domain label verbose s)) =
           stderr s @
           (if 200 \<le> status \<and> status < 300 then []
            else if status = 404 then
              [domain @ '' ('' @ label @ ''): update URL is invalid (404). Check your configuration.'']
            else if status = 400 then
              [domain @ '' ('' @ label @
                 ''): server rejected the request (400). You may not have a public '' @ label @ '' address.'']
            else [domain @ '' ('' @ label @ ''): unexpected HTTP status '' @ str status @ ''.''])"
  unfolding update_status [OF assms]
  by (simp add: classify_eq msg_success_def msg_404_def msg_400_def msg_unexpected_def)

theorem update_classifies_status_witness:
  "fst (update scripted (Opener AF_INET) ''https://ydns.io/hosts/update/a'' ''example.ydns.eu''
          ''IPv4'' True (initial [HTTPError 404])) = HTTP_ERROR
   \<and> stdout (snd (update scripted (Opener AF_INET) ''https://ydns.io/hosts/update/a''
          ''example.ydns.eu'' ''IPv4'' True (initial [HTTPError 404]))) = []
   \<and> stderr (snd (update scripted (Opener AF_INET) ''https://ydns.io/hosts/update/a''
          ''example.ydns.eu'' ''IPv4'' True (initial [HTTPError 404]))) =
       [''example.ydns.eu (IPv4): update URL is invalid (404). Check your configuration.'']"
  using update_classifies_status [of scripted "Opener AF_INET" "''https://ydns.io/hosts/update/a''"
     "initial [HTTPError 404]" 404 "''example.ydns.eu''" "''IPv4''" True]
  by (simp add: scripted_def initial_def)

text \<open>
  C5: an attempt ends as \<open>CONN_ERROR\<close> exactly when the opener raised an exception
  other than an \<open>HTTPError\<close>, that is when no HTTP status was obtained. When the opener
  raises an \<open>HTTPError\<close>, its code is kept as the status of the attempt and classified
  like the status of a response: the result is \<open>OK\<close> or \<open>HTTP_ERROR\<close>, and
  \<open>HTTP_ERROR\<close> for every code outside [200, 300).
\<close>

theorem update_conn_error_iff:
  "(fst (update env opener url domain label verbose s) = CONN_ERROR \<longleftrightarrow>
      (\<exists>e. fst (opener_open env opener (Request env url) TIMEOUT (world s)) = Exception e))
   \<and> (\<forall>code. fst (opener_open env opener (Request env url) TIMEOUT (world s)) = HTTPError code \<longrightarrow>
         update env opener url domain label verbose s =
           (case classify code domain label verbose
                   (s\<lparr>world := snd (opener_open env opener (Request env url) TIMEOUT (world s))\<rparr>) of
              (r, s') \<Rightarrow>
                (r, s'\<lparr>attempts := attempts s' @
                        [\<lparr>att_opener = opener, att_url = url, att_domain = domain,
                          att_label = label, att_reply = HTTPError code, att_result = r\<rparr>]\<rparr>))
         \<and> fst (update env opener url domain label verbose s) =
             (if 200 \<le> code \<and> code < 300 then OK else HTTP_ERROR))"
proof (cases "fst (opener_open env opener (Request env url) TIMEOUT (world s))")
  case (Exception e)
  from update_exception [OF this] Exception show ?thesis by simp
next
  case (Response status)
  then have "fst (opener_open env opener (Request env url) TIMEOUT (world s))
               \<in> {Response status, HTTPError status}" by simp
  from update_status [OF this] Response show ?thesis by (simp add: classify_eq)
next
  case (HTTPError status)
  then have "fst (opener_open env opener (Request env url) TIMEOUT (world s))
               \<in> {Response status, HTTPError status}" by simp
  from update_status [OF this] HTTPError show ?thesis by (simp add: classify_eq)
qed

theorem update_conn_error_iff_witness:
  "fst (update scripted (Opener AF_INET6) ''https://ydns.io/hosts/update/b'' ''example.ydns.eu''
          ''IPv6'' False (initial [HTTPError 503])) = HTTP_ERROR
   \<and> stderr (snd (update scripted (Opener AF_INET6) ''https://ydns.io/hosts/update/b''
          ''example.ydns.eu'' ''IPv6'' False (initial [HTTPError 503]))) =
       [''example.ydns.eu (IPv6): unexpected HTTP status 503.'']
   \<and> fst (update scripted (Opener AF_INET6) ''https://ydns.io/hosts/update/b'' ''example.ydns.eu''
          ''IPv6'' False (initial [])) = CONN_ERROR"
  using update_conn_error_iff [of scripted "Opener AF_INET6" "''https://ydns.io/hosts/update/b''"
     "''example.ydns.eu''" "''IPv6''" False "initial [HTTPError 503]"]
  by (simp add: run_eval str_def str_nat.simps)




text \<open>
  C7: for an entry with neither \<open>update_url\<close> nor \<open>update_url_v6\<close>, the loop body
  only appends one line to the error stream, the warning that names the domain: the
  log of attempts, the network, the standard output and the two flags stay as they
  were.
\<close>

theorem loop_body_no_urls:
  assumes "e ''update_url'' = None" and "e ''update_url_v6'' = None"
  shows "loop_body env o4 o6 verbose e s =
           s\<lparr>stderr := stderr s @
               [''No update URLs configured for '' @ get_default e ''domain'' ''<undefined>''
                  @ '', updates not attempted'']\<rparr>
       \<and> attempts (loop_body env o4 o6 verbose e s) = attempts s
       \<and> world (loop_body env o4 o6 verbose e s) = world s
       \<and> stdout (loop_body env o4 o6 verbose e s) = stdout s
       \<and> any_http_error (loop_body env o4 o6 verbose e s) = any_http_error s
       \<and> any_conn_error (loop_body env o4 o6 verbose e s) = any_conn_error s"
  using assms
  by (simp add: loop_body_def Let_def try_url_def truthy_def print_err_def msg_no_urls_def)

theorem loop_body_no_urls_witness:
  "loop_body scripted (Opener AF_INET) (Opener AF_INET6) True entry_bare (initial [Response 200]) =
     (initial [Response 200])
       \<lparr>stderr := [''No update URLs configured for bare.ydns.eu, updates not attempted'']\<rparr>
   \<and> attempts (loop_body scripted (Opener AF_INET) (Opener AF_INET6) True entry_bare
         (initial [Response 200])) = []"
  using loop_body_no_urls [of entry_bare scripted "Opener AF_INET" "Opener AF_INET6" True
       "initial [Response 200]"]
  by (simp add: entry_bare_def get_default_def initial_def)



text \<open>
  C10: for an entry without the key \<open>domain\<close> the loop body does what it does for
  the same entry with the domain \<open><undefined>\<close>: every line it prints names that
  placeholder, and the non-empty URLs of the entry are attempted as for any entry, each
  attempt under the placeholder.
\<close>

theorem missing_domain_placeholder:
  assumes "e ''domain'' = None"
  shows "loop_body env o4 o6 verbose e s =
           loop_body env o4 o6 verbose (e(''domain'' \<mapsto> ''<undefined>'')) s
       \<and> map call_of (attempts (loop_body env o4 o6 verbose e s)) =
           map call_of (attempts s) @
           map (\<lambda>u. (o4, u, ''<undefined>'', ''IPv4'')) (present (e ''update_url'')) @
           map (\<lambda>u. (o6, u, ''<undefined>'', ''IPv6'')) (present (e ''update_url_v6''))"
proof -
  have "loop_body env o4 o6 verbose e s =
          loop_body env o4 o6 verbose (e(''domain'' \<mapsto> ''<undefined>'')) s"
    using assms by (simp add: loop_body_def Let_def get_default_def)
  moreover have "map call_of (attempts (loop_body env o4 o6 verbose e s)) =
           map call_of (attempts s) @
           map (\<lambda>u. (o4, u, ''<undefined>'', ''IPv4'')) (present (e ''update_url'')) @
           map (\<lambda>u. (o6, u, ''<undefined>'', ''IPv6'')) (present (e ''update_url_v6''))"
    using assms calls_loop_body [of env o4 o6 verbose e s]
    by (simp add: planned_def get_default_def)
  ultimately show ?thesis by simp
qed

theorem missing_domain_placeholder_witness:
  "map call_of (attempts (loop_body scripted (Opener AF_INET) (Opener AF_INET6) True
       entry_nameless (initial [Response 200]))) =
     [(Opener AF_INET, ''https://ydns.io/hosts/update/d'', ''<undefined>'', ''IPv4'')]
   \<and> stdout (loop_body scripted (Opener AF_INET) (Opener AF_INET6) True
       entry_nameless (initial [Response 200])) = [''Updated <undefined> (IPv4) successfully.'']"
  using missing_domain_placeholder [of entry_nameless scripted "Opener AF_INET" "Opener AF_INET6"
       True "initial [Response 200]"]
  by (simp add: run_eval present_def)






text \<open>
  C8: after a run, the standard output holds the success lines of the attempts that
  ended \<open>OK\<close>, in order, when verbose, and nothing otherwise. Every attempt that did
  not end \<open>OK\<close> has its line (connection error, 404, 400 or unexpected status) on the
  error stream, every entry without a URL has its warning there, and the error stream
  has one line for each of them. A run that is not verbose, whose attempts all ended
  \<open>OK\<close> and whose entries all have a URL prints nothing on either stream.
\<close>

theorem run_streams:
  assumes "s = snd (run env domains verbose strict w)"
  shows "stdout s =
           (if verbose
            then map (\<lambda>a. ''Updated '' @ att_domain a @ '' ('' @ att_label a @ '') successfully.'')
                   (filter (\<lambda>a. att_result a = OK) (attempts s))
            else [])
       \<and> list_all (reported (stderr s)) (attempts s)
       \<and> (\<forall>e \<in> set domains. no_urls e \<longrightarrow>
            msg_no_urls (get_default e ''domain'' ''<undefined>'') \<in> set (stderr s))
       \<and> length (stderr s) =
           length (filter (\<lambda>a. att_result a \<noteq> OK) (attempts s)) + length (filter no_urls domains)
       \<and> (\<not> verbose \<and> (\<forall>a \<in> set (attempts s). att_result a = OK) \<and>
          (\<forall>e \<in> set domains. \<not> no_urls e) \<longrightarrow> stdout s = [] \<and> stderr s = [])"
proof -
  let ?o4 = "make_opener False" and ?o6 = "make_opener True"
  have s: "s = for_entries env ?o4 ?o6 verbose domains (initial w)"
    using assms by (simp add: run_state)
  have out: "stdout s = confirmations verbose (attempts s)"
    unfolding s by (rule stdout_for_entries) (simp add: initial_def confirmations_def)
  have rep: "list_all (reported (stderr s)) (attempts s)"
    unfolding s by (rule reported_for_entries) (simp add: initial_def)
  have warn: "\<forall>e \<in> set domains. no_urls e \<longrightarrow>
      msg_no_urls (get_default e ''domain'' ''<undefined>'') \<in> set (stderr s)"
    unfolding s by (simp add: warned_for_entries)
  have "err_count 0 (initial w)" by (simp add: err_count_def initial_def)
  then have "err_count (0 + length (filter no_urls domains)) s"
    unfolding s by (rule err_count_for_entries)
  then have len: "length (stderr s) =
      length (filter (\<lambda>a. att_result a \<noteq> OK) (attempts s)) + length (filter no_urls domains)"
    by (simp add: err_count_def)
  have quiet: "\<not> verbose \<and> (\<forall>a \<in> set (attempts s). att_result a = OK) \<and>
      (\<forall>e \<in> set domains. \<not> no_urls e) \<longrightarrow> stdout s = [] \<and> stderr s = []"
  proof (intro impI conjI)
    assume h: "\<not> verbose \<and> (\<forall>a \<in> set (attempts s). att_result a = OK) \<and>
      (\<forall>e \<in> set domains. \<not> no_urls e)"
    from h out show "stdout s = []" by (simp add: confirmations_def)
    from h have "filter (\<lambda>a. att_result a \<noteq> OK) (attempts s) = []"
      and "filter no_urls domains = []" by (simp_all add: filter_empty_conv)
    with len show "stderr s = []" by simp
  qed
  from out have out': "stdout s =
           (if verbose
            then map (\<lambda>a. ''Updated '' @ att_domain a @ '' ('' @ att_label a @ '') successfully.'')
                   (filter (\<lambda>a. att_result a = OK) (attempts s))
            else [])"
    by (simp add: confirmations_def msg_success_def)
  from out' rep warn len quiet show ?thesis by blast
qed

theorem run_streams_witness:
  "stdout (snd (run scripted [entry_v4, entry_bare, entry_both] True False
       [HTTPError 404, Response 200, Exception ''refused''])) =
     [''Updated example.ydns.eu (IPv4) successfully.'']
   \<and> stderr (snd (run scripted [entry_v4, entry_bare, entry_both] True False
       [HTTPError 404, Response 200, Exception ''refused''])) =
     [''example2.ydns.eu (IPv4): update URL is invalid (404). Check your configuration.'',
      ''No update URLs configured for bare.ydns.eu, updates not attempted'',
      ''example.ydns.eu (IPv6): connection error: refused'']
   \<and> stdout (snd (run scripted [entry_v4] False False [Response 200])) = []
   \<and> stderr (snd (run scripted [entry_v4] False False [Response 200])) = []"
  using run_streams [OF refl, of scripted "[entry_v4, entry_bare, entry_both]" True False
       "[HTTPError 404, Response 200, Exception ''refused'']"]
     run_streams [OF refl, of scripted "[entry_v4]" False False "[Response 200]"]
  by (simp add: run_eval)

end
